theory Spec2Isabelle
  imports Main
begin

section \<open>Python strings\<close>

text \<open>
  A Python \<open>str\<close> is a sequence of code points. The model covers the strings of the
  code points 0 to 255 (ASCII and Latin-1): a \<^typ>\<open>char\<close> is read as the code point
  \<open>of_char c\<close>, and \<open>str.strip()\<close> and \<open>str.lower()\<close> map such strings to such strings.
  On these strings \<open>str.lower()\<close> works character by character, and the two tables below
  are the ones of the Python runtime. Beyond code point 255 \<open>str.lower()\<close> can change the
  length and depends on the neighbours of a character (the Greek capital sigma); such
  strings are outside the model.
\<close>

text \<open>
  \<open>str.isspace\<close> on one code point: TAB, LF, VT, FF, CR (9 to 13), the separators FS, GS,
  RS, US (28 to 31), the space (32), NEL (0x85) and the no-break space (0xA0).
\<close>

definition isspace :: "char \<Rightarrow> bool" where
  "isspace c =
     (let n = (of_char c :: nat)
      in (9 \<le> n \<and> n \<le> 13) \<or> (28 \<le> n \<and> n \<le> 32) \<or> n = 133 \<or> n = 160)"

text \<open>\<open>s.strip()\<close>: the leading and the trailing whitespace are removed.\<close>

definition strip :: "string \<Rightarrow> string" where
  "strip s = rev (dropWhile isspace (rev (dropWhile isspace s)))"

text \<open>
  \<open>str.lower()\<close> on one code point: \<open>A\<close> to \<open>Z\<close> (65 to 90) and the Latin-1 capitals
  (192 to 222 without the multiplication sign 215) move up by 32; every other code
  point below 256, the sharp s (223) among them, stays.
\<close>

definition lower_char :: "char \<Rightarrow> char" where
  "lower_char c =
     (let n = (of_char c :: nat)
      in if (65 \<le> n \<and> n \<le> 90) \<or> (192 \<le> n \<and> n \<le> 222 \<and> n \<noteq> 215)
         then char_of (n + 32) else c)"

definition lower :: "string \<Rightarrow> string" where
  "lower s = map lower_char s"

text \<open>\<open>sep.join(xs)\<close>\<close>

fun join :: "string \<Rightarrow> string list \<Rightarrow> string" where
  "join sep [] = []"
| "join sep [x] = x"
| "join sep (x # y # ys) = x @ sep @ join sep (y # ys)"

section \<open>Exceptions\<close>

text \<open>
  A raised value is an instance of \<open>Exception\<close>, which \<open>except Exception\<close> catches, or of
  \<open>BaseException\<close> only (\<open>KeyboardInterrupt\<close>, \<open>SystemExit\<close>), which it does not catch.
  The string is \<open>str(e)\<close>.
\<close>

datatype py_exc = Exception string | BaseException string

section \<open>Comments, the platform and what the bot does\<close>

text \<open>
  The attributes of a comment that \<open>monitor_comments\<close> reads: \<open>comment.id\<close>,
  \<open>comment.body\<close>, \<open>comment.author\<close> (\<open>None\<close> for a deleted author, otherwise an object
  whose \<open>name\<close> is kept here) and \<open>comment.subreddit.display_name\<close>.
\<close>

record comment =
  comment_id :: string
  body :: string
  author :: "string option"
  subreddit :: string

text \<open>
  One element of the stream, with the answers of the platform to the calls of that
  iteration: \<open>reddit.user.me()\<close> raises, returns \<open>None\<close> (a read-only session) or returns
  a user whose \<open>name\<close> is kept; \<open>comment.reply(reply_text)\<close> raises or returns.
\<close>

record delivery =
  comment :: comment
  me_result :: "py_exc + string option"
  reply_result :: "py_exc + unit"

text \<open>The iterator yields a comment or raises; the end of the list is its exhaustion.\<close>

datatype stream_item = Yield delivery | StreamRaises py_exc

text \<open>
  The platform behind the session, for each subscription target: the comments that
  exist when the stream is opened, and what the stream produces afterwards.
\<close>

record reddit =
  existing :: "string \<Rightarrow> delivery list"
  incoming :: "string \<Rightarrow> stream_item list"

text \<open>
  Modelled from the spec: the comment stream of the external client library
  (\<open>subreddit.stream.comments\<close> of praw, not under src/). In skip-existing mode it yields
  only comments created after subscription; otherwise, as the comment in the source says,
  it first emits up to 100 historical comments.
\<close>

definition stream_comments :: "reddit \<Rightarrow> string \<Rightarrow> bool \<Rightarrow> stream_item list" where
  "stream_comments r path skip_existing =
     (if skip_existing then incoming r path
      else map Yield (drop (length (existing r path) - 100) (existing r path)) @ incoming r path)"

datatype log_level = INFO | ERROR

text \<open>
  The observable actions, in the order they happen: a log record (level, format string,
  arguments), the opening of the stream (target, \<open>skip_existing\<close>), the call of
  \<open>reddit.user.me()\<close>, the call of \<open>comment.reply\<close> (comment id, text), \<open>time.sleep\<close>.
\<close>

datatype event =
    Log log_level string "string list"
  | OpenStream string bool
  | CallMe
  | Reply string string
  | Sleep nat

section \<open>monitor_comments\<close>

text \<open>
  Lines 108 to 114: \<open>Inr True\<close> is the \<open>continue\<close>, \<open>Inr False\<close> falls through to the
  trigger check, \<open>Inl e\<close> leaves the function with \<open>e\<close>. With an author present and
  \<open>me()\<close> returning \<open>None\<close>, \<open>me.name\<close> raises \<open>AttributeError\<close>, which the handler swallows.
\<close>

definition self_check :: "delivery \<Rightarrow> py_exc + bool" where
  "self_check d =
     (case me_result d of
        Inl (BaseException m) \<Rightarrow> Inl (BaseException m)
      | Inl (Exception m) \<Rightarrow> Inr False
      | Inr me \<Rightarrow>
          (case author (comment d) of
             None \<Rightarrow> Inr False
           | Some a \<Rightarrow> (case me of None \<Rightarrow> Inr False | Some n \<Rightarrow> Inr (a = n))))"

text \<open>Lines 117 to 129: the events of the trigger check and the exception that escapes.\<close>

definition check_trigger :: "string \<Rightarrow> string \<Rightarrow> delivery \<Rightarrow> event list \<times> py_exc option" where
  "check_trigger trigger_normalized reply_text d =
     (let c = comment d; body_normalized = lower (strip (body c))
      in if body_normalized = trigger_normalized then
           (let attempt =
                  [Log INFO ''Replying to comment id=%s in r/%s'' [comment_id c, subreddit c],
                   Reply (comment_id c) reply_text]
            in case reply_result d of
                 Inr u \<Rightarrow> (attempt @ [Sleep 2], None)
               | Inl (Exception m) \<Rightarrow>
                   (attempt @ [Log ERROR ''Failed to reply to comment %s: %s'' [comment_id c, m],
                               Sleep 5], None)
               | Inl (BaseException m) \<Rightarrow> (attempt, Some (BaseException m)))
         else ([], None))"

text \<open>One iteration of the \<open>for\<close> loop.\<close>

definition loop_body :: "string \<Rightarrow> string \<Rightarrow> delivery \<Rightarrow> event list \<times> py_exc option" where
  "loop_body trigger_normalized reply_text d =
     (case self_check d of
        Inl e \<Rightarrow> ([CallMe], Some e)
      | Inr True \<Rightarrow> ([CallMe], None)
      | Inr False \<Rightarrow>
          (case check_trigger trigger_normalized reply_text d of
             (evs, r) \<Rightarrow> (CallMe # evs, r)))"

text \<open>
  The \<open>for\<close> loop over the stream: it ends when the iterator is exhausted, and any
  exception of the iterator or of an iteration leaves it.
\<close>

fun comment_loop :: "string \<Rightarrow> string \<Rightarrow> stream_item list \<Rightarrow> event list \<times> py_exc option" where
  "comment_loop tn rt [] = ([], None)"
| "comment_loop tn rt (StreamRaises e # rest) = ([], Some e)"
| "comment_loop tn rt (Yield d # rest) =
     (case loop_body tn rt d of
        (evs, Some e) \<Rightarrow> (evs, Some e)
      | (evs, None) \<Rightarrow> (case comment_loop tn rt rest of (evs', r) \<Rightarrow> (evs @ evs', r)))"

definition monitor_comments ::
  "reddit \<Rightarrow> string list \<Rightarrow> string \<Rightarrow> string \<Rightarrow> event list \<times> py_exc option" where
  "monitor_comments r subreddits trigger_phrase reply_text =
     (let subreddit_path = join ''+'' subreddits;
          trigger_normalized = lower (strip trigger_phrase)
      in case comment_loop trigger_normalized reply_text
                (stream_comments r subreddit_path True) of
           (evs, res) \<Rightarrow>
             (Log INFO
                (''Starting comment stream for r/%s; trigger phrase='' @ [CHR 0x27] @ ''%s''
                   @ [CHR 0x27])
                [subreddit_path, trigger_phrase]
              # OpenStream subreddit_path True # evs, res))"

text \<open>The constants of \<open>main\<close>.\<close>

definition SUBREDDITS :: "string list" where
  "SUBREDDITS = [''all'']"

definition TRIGGER_PHRASE :: string where
  "TRIGGER_PHRASE = ''New response just dropped''"

definition REPLY_TEXT :: string where
  "REPLY_TEXT = ''Actual Zombie''"

section \<open>Observations on a run\<close>

text \<open>
  The decision of line 118 for a trigger phrase and a comment body, with the values of
  lines 98 and 117 written out.
\<close>

definition trigger_matches :: "string \<Rightarrow> string \<Rightarrow> bool" where
  "trigger_matches trigger_phrase b = (lower (strip b) = lower (strip trigger_phrase))"

text \<open>The number of calls of \<open>comment.reply\<close> and the time slept in a sequence of events.\<close>

fun is_reply :: "event \<Rightarrow> bool" where
  "is_reply (Reply i t) = True"
| "is_reply e = False"

definition reply_attempts :: "event list \<Rightarrow> nat" where
  "reply_attempts evs = length (filter is_reply evs)"

fun slept :: "event \<Rightarrow> nat" where
  "slept (Sleep n) = n"
| "slept e = 0"

definition total_sleep :: "event list \<Rightarrow> nat" where
  "total_sleep evs = sum_list (map slept evs)"

text \<open>
  \<open>str.upper()\<close> of the Python runtime, which the source does not call: a change of letter
  casing a comment author can apply. \<open>a\<close> to \<open>z\<close> and the Latin-1 small letters (224 to 254
  without the division sign 247) move down by 32, the sharp s (223) becomes \<open>SS\<close>; the
  capitals of the micro sign (181) and of y with diaeresis (255) lie beyond code point 255,
  which is \<open>None\<close> here.
\<close>

definition upper_char :: "char \<Rightarrow> string option" where
  "upper_char c =
     (let n = (of_char c :: nat)
      in if (97 \<le> n \<and> n \<le> 122) \<or> (224 \<le> n \<and> n \<le> 254 \<and> n \<noteq> 247)
         then Some [char_of (n - 32)]
         else if n = 223 then Some ''SS''
         else if n = 181 \<or> n = 255 then None
         else Some [c])"

fun upper :: "string \<Rightarrow> string option" where
  "upper [] = Some []"
| "upper (c # cs) =
     (case upper_char c of
        None \<Rightarrow> None
      | Some u \<Rightarrow> (case upper cs of None \<Rightarrow> None | Some us \<Rightarrow> Some (u @ us)))"

text \<open>
  A change of letter casing that keeps the length, read off the table of \<open>str.upper()\<close>
  alone: two characters are the same, or one is the single-character upper case of the
  other (\<open>a\<close> and \<open>A\<close>; code points 224 and 192). The sharp s, whose upper case has
  two characters, has no such partner. Two strings are recased when their characters are
  so related position by position.
\<close>

definition recased_char :: "char \<Rightarrow> char \<Rightarrow> bool" where
  "recased_char c c' = (c' = c \<or> upper_char c = Some [c'] \<or> upper_char c' = Some [c])"

definition recased :: "string \<Rightarrow> string \<Rightarrow> bool" where
  "recased s s' = list_all2 recased_char s s'"

text \<open>Sample inputs: a comment by another user, and the platform's answers around it.\<close>

definition sample_comment :: "string \<Rightarrow> string option \<Rightarrow> comment" where
  "sample_comment b a = \<lparr>comment_id = ''c1'', body = b, author = a, subreddit = ''test''\<rparr>"

definition sample_delivery ::
  "string \<Rightarrow> string option \<Rightarrow> py_exc + string option \<Rightarrow> py_exc + unit \<Rightarrow> delivery" where
  "sample_delivery b a me rep =
     \<lparr>comment = sample_comment b a, me_result = me, reply_result = rep\<rparr>"

text \<open>The streams opened in a sequence of events: target and \<open>skip_existing\<close> flag.\<close>

fun opened :: "event \<Rightarrow> (string \<times> bool) list" where
  "opened (OpenStream p f) = [(p, f)]"
| "opened e = []"

definition streams_opened :: "event list \<Rightarrow> (string \<times> bool) list" where
  "streams_opened evs = concat (map opened evs)"

section \<open>Facts about strings\<close>

lemma isspace_lower_char: "isspace (lower_char c) = isspace c"
  unfolding isspace_def lower_char_def Let_def
  by (auto simp: of_char_of)

lemma lower_char_idem: "lower_char (lower_char c) = lower_char c"
  unfolding lower_char_def Let_def
  by (auto simp: of_char_of)

lemma dropWhile_isspace_lower: "dropWhile isspace (map lower_char s) = map lower_char (dropWhile isspace s)"
  by (induction s) (auto simp: isspace_lower_char)

lemma strip_lower: "strip (lower s) = lower (strip s)"
  unfolding strip_def lower_def
  by (simp add: dropWhile_isspace_lower rev_map)

lemma dropWhile_ws_prefix: "\<forall>c\<in>set l. isspace c \<Longrightarrow> dropWhile isspace (l @ s) = dropWhile isspace s"
  by (induction l) auto

lemma strip_pad:
  assumes l: "\<forall>c\<in>set l. isspace c" and r: "\<forall>c\<in>set r. isspace c"
  shows "strip (l @ s @ r) = strip s"
proof (cases "\<forall>c\<in>set s. isspace c")
  case True
  then have "\<forall>c\<in>set (l @ s @ r). isspace c" using l r by auto
  then have a: "dropWhile isspace (l @ s @ r) = []" by (simp only: dropWhile_eq_Nil_conv)
  have b: "dropWhile isspace s = []" using True by simp
  show ?thesis by (simp only: strip_def a b)
next
  case False
  then obtain x where x: "x \<in> set s" "\<not> isspace x" by blast
  have "dropWhile isspace (l @ s @ r) = dropWhile isspace (s @ r)"
    using l by (rule dropWhile_ws_prefix)
  also have "\<dots> = dropWhile isspace s @ r"
    using x by (rule dropWhile_append1)
  finally have "rev (dropWhile isspace (l @ s @ r)) = rev r @ rev (dropWhile isspace s)"
    by simp
  moreover have "\<forall>c\<in>set (rev r). isspace c" using r by simp
  ultimately have "dropWhile isspace (rev (dropWhile isspace (l @ s @ r)))
      = dropWhile isspace (rev (dropWhile isspace s))"
    by (simp add: dropWhile_ws_prefix)
  then show ?thesis by (simp add: strip_def)
qed

section \<open>Facts about one iteration and the loop\<close>

lemma check_trigger_nomatch:
  "lower (strip (body (comment d))) \<noteq> tn \<Longrightarrow> check_trigger tn rt d = ([], None)"
  by (simp add: check_trigger_def Let_def)

lemma check_trigger_ok:
  "lower (strip (body (comment d))) = tn \<Longrightarrow> reply_result d = Inr u \<Longrightarrow>
   check_trigger tn rt d =
     ([Log INFO ''Replying to comment id=%s in r/%s'' [comment_id (comment d), subreddit (comment d)],
       Reply (comment_id (comment d)) rt, Sleep 2], None)"
  by (simp add: check_trigger_def Let_def)

lemma check_trigger_exception:
  "lower (strip (body (comment d))) = tn \<Longrightarrow> reply_result d = Inl (Exception m) \<Longrightarrow>
   check_trigger tn rt d =
     ([Log INFO ''Replying to comment id=%s in r/%s'' [comment_id (comment d), subreddit (comment d)],
       Reply (comment_id (comment d)) rt,
       Log ERROR ''Failed to reply to comment %s: %s'' [comment_id (comment d), m],
       Sleep 5], None)"
  by (simp add: check_trigger_def Let_def)

lemma check_trigger_base_exception:
  "lower (strip (body (comment d))) = tn \<Longrightarrow> reply_result d = Inl (BaseException m) \<Longrightarrow>
   check_trigger tn rt d =
     ([Log INFO ''Replying to comment id=%s in r/%s'' [comment_id (comment d), subreddit (comment d)],
       Reply (comment_id (comment d)) rt], Some (BaseException m))"
  by (simp add: check_trigger_def Let_def)

lemma reply_result_cases:
  obtains (ok) "reply_result d = Inr ()"
  | (exc) m where "reply_result d = Inl (Exception m)"
  | (base) m where "reply_result d = Inl (BaseException m)"
proof (cases "reply_result d")
  case (Inl e)
  then show ?thesis by (cases e) (auto intro: exc base)
next
  case (Inr u)
  then show ?thesis by (auto intro: ok)
qed

lemma loop_body_nonself:
  "self_check d = Inr False \<Longrightarrow>
   loop_body tn rt d = (CallMe # fst (check_trigger tn rt d), snd (check_trigger tn rt d))"
  by (simp add: loop_body_def split: prod.splits)

lemma loop_body_self:
  "self_check d = Inr True \<Longrightarrow> loop_body tn rt d = ([CallMe], None)"
  by (simp add: loop_body_def)

lemma comment_loop_append:
  "comment_loop tn rt pre = (evs, None) \<Longrightarrow>
   comment_loop tn rt (pre @ items) =
     (evs @ fst (comment_loop tn rt items), snd (comment_loop tn rt items))"
proof (induction pre arbitrary: evs)
  case Nil
  then show ?case by simp
next
  case (Cons x pre)
  show ?case
  proof (cases x)
    case (StreamRaises e)
    with Cons.prems show ?thesis by simp
  next
    case (Yield d)
    obtain e1 r1 where b: "loop_body tn rt d = (e1, r1)" by (cases "loop_body tn rt d")
    obtain e2 r2 where l: "comment_loop tn rt pre = (e2, r2)" by (cases "comment_loop tn rt pre")
    from Cons.prems Yield b l have r1: "r1 = None" and r2: "r2 = None" and evs: "evs = e1 @ e2"
      by (auto split: option.splits)
    from Cons.IH[OF l[unfolded r2]] Yield b r1 evs show ?thesis
      by (simp split: prod.splits)
  qed
qed

lemma comment_loop_single:
  "comment_loop tn rt [Yield d] = loop_body tn rt d"
  by (cases "loop_body tn rt d") (auto split: option.splits)

lemma self_check_body:
  "self_check (d\<lparr>comment := (comment d)\<lparr>body := b\<rparr>\<rparr>) = self_check d"
  by (simp add: self_check_def split: sum.splits option.splits py_exc.splits)

section \<open>Facts about the opened stream and about recased strings\<close>

lemma streams_opened_check_trigger: "streams_opened (fst (check_trigger tn rt d)) = []"
proof (cases "lower (strip (body (comment d))) = tn")
  case True
  then show ?thesis
    by (cases d rule: reply_result_cases)
      (simp_all add: check_trigger_ok check_trigger_exception check_trigger_base_exception
        streams_opened_def)
next
  case False
  then show ?thesis by (simp add: check_trigger_nomatch streams_opened_def)
qed

lemma streams_opened_Nil: "streams_opened [] = []"
  by (simp add: streams_opened_def)

lemma streams_opened_Cons: "streams_opened (e # evs) = opened e @ streams_opened evs"
  by (simp add: streams_opened_def)

lemma streams_opened_append:
  "streams_opened (evs @ evs') = streams_opened evs @ streams_opened evs'"
  by (simp add: streams_opened_def)

lemma streams_opened_loop_body: "streams_opened (fst (loop_body tn rt d)) = []"
proof (cases "self_check d")
  case (Inl e)
  then show ?thesis by (simp add: loop_body_def streams_opened_def)
next
  case (Inr b)
  then show ?thesis
    by (cases b)
      (simp_all add: loop_body_self loop_body_nonself streams_opened_Cons
        streams_opened_Nil streams_opened_check_trigger)
qed

lemma streams_opened_comment_loop: "streams_opened (fst (comment_loop tn rt items)) = []"
proof (induction items)
  case Nil
  then show ?case by (simp add: streams_opened_def)
next
  case (Cons x items)
  show ?case
  proof (cases x)
    case (StreamRaises e)
    then show ?thesis by (simp add: streams_opened_def)
  next
    case (Yield d)
    obtain e1 r1 where b: "loop_body tn rt d = (e1, r1)" by (cases "loop_body tn rt d")
    have e1: "streams_opened e1 = []"
      using streams_opened_loop_body[of tn rt d] b by simp
    show ?thesis using Yield b e1 Cons.IH
      by (cases r1; cases "comment_loop tn rt items") (simp_all add: streams_opened_append)
  qed
qed

lemma join_closed_form: "join sep (x # xs) = x @ concat (map (\<lambda>y. sep @ y) xs)"
  by (induction xs arbitrary: x) simp_all

lemma monitor_comments_unfold:
  "monitor_comments r subs t rt =
     (Log INFO
        (''Starting comment stream for r/%s; trigger phrase='' @ [CHR 0x27] @ ''%s''
           @ [CHR 0x27])
        [join ''+'' subs, t]
      # OpenStream (join ''+'' subs) True
      # fst (comment_loop (lower (strip t)) rt (stream_comments r (join ''+'' subs) True)),
      snd (comment_loop (lower (strip t)) rt (stream_comments r (join ''+'' subs) True)))"
  by (simp add: monitor_comments_def Let_def split: prod.splits)

lemma upper_char_partner_lower:
  "upper_char c = Some [c'] \<Longrightarrow> lower_char c' = lower_char c"
  unfolding upper_char_def lower_char_def Let_def
  by (auto simp: of_char_of split: if_splits)

lemma recased_char_lower: "recased_char c c' \<Longrightarrow> lower_char c' = lower_char c"
  unfolding recased_char_def
  by (auto dest: upper_char_partner_lower)

lemma recased_lower: "recased s s' \<Longrightarrow> lower s' = lower s"
  unfolding recased_def lower_def
  by (induction s s' rule: list_all2_induct) (simp_all add: recased_char_lower)

lemma normalize_pad_recased:
  assumes "\<forall>c\<in>set l. isspace c" and "\<forall>c\<in>set r. isspace c" and "recased s s'"
  shows "lower (strip (l @ s' @ r)) = lower (strip s)"
proof -
  have "lower (strip (l @ s' @ r)) = lower (strip s')"
    using assms(1,2) by (simp only: strip_pad)
  also have "\<dots> = strip (lower s')" by (simp only: strip_lower)
  also have "\<dots> = strip (lower s)" using assms(3) by (simp only: recased_lower)
  also have "\<dots> = lower (strip s)" by (simp only: strip_lower)
  finally show ?thesis .
qed

lemma check_trigger_same_decision:
  assumes "(lower (strip b') = tn') = (lower (strip b) = tn)"
  shows "check_trigger tn' rt (d\<lparr>comment := (comment d)\<lparr>body := b'\<rparr>\<rparr>)
       = check_trigger tn rt (d\<lparr>comment := (comment d)\<lparr>body := b\<rparr>\<rparr>)"
  using assms by (simp add: check_trigger_def Let_def split: sum.splits py_exc.splits)

section \<open>The claims\<close>

text \<open>
  C1. For a comment that passes the self-author check, \<open>comment.reply\<close> is called if and
  only if the stripped and lower-cased body equals the stripped and lower-cased trigger
  phrase. A body with trailing punctuation, \<open>New response just dropped!\<close> against the
  trigger \<open>New response just dropped\<close>, does not match, and no reply is attempted.
\<close>

theorem C1_reply_iff_normalized_equal:
  assumes "self_check d = Inr False"
  shows "(0 < reply_attempts (fst (loop_body (lower (strip t)) rt d)))
           = (lower (strip (body (comment d))) = lower (strip t))
       \<and> reply_attempts (fst (loop_body (lower (strip ''New response just dropped'')) rt
             (d\<lparr>comment := (comment d)\<lparr>body := ''New response just dropped!''\<rparr>\<rparr>))) = 0"
proof -
  let ?d' = "d\<lparr>comment := (comment d)\<lparr>body := ''New response just dropped!''\<rparr>\<rparr>"
  have a: "(0 < reply_attempts (fst (loop_body (lower (strip t)) rt d)))
           = (lower (strip (body (comment d))) = lower (strip t))"
  proof (cases "lower (strip (body (comment d))) = lower (strip t)")
    case True
    then show ?thesis using assms
      by (cases d rule: reply_result_cases)
        (simp_all add: loop_body_nonself check_trigger_ok check_trigger_exception
          check_trigger_base_exception reply_attempts_def)
  next
    case False
    then show ?thesis using assms
      by (simp add: loop_body_nonself check_trigger_nomatch reply_attempts_def)
  qed
  have s: "self_check ?d' = Inr False"
    using assms by (simp only: self_check_body)
  have "lower (strip ''New response just dropped!'')
          \<noteq> lower (strip ''New response just dropped'')"
    by code_simp
  then have ne: "lower (strip (body (comment ?d')))
          \<noteq> lower (strip ''New response just dropped'')"
    by simp
  have b: "reply_attempts (fst (loop_body (lower (strip ''New response just dropped'')) rt ?d')) = 0"
    unfolding loop_body_nonself[OF s] check_trigger_nomatch[OF ne]
    by (simp add: reply_attempts_def)
  from a b show ?thesis by simp
qed

theorem C1_reply_iff_normalized_equal_witness:
  "self_check (sample_delivery ''  NEW RESPONSE JUST DROPPED  '' (Some ''alice'')
       (Inr (Some ''bot'')) (Inr ())) = Inr False
   \<and> lower (strip ''  NEW RESPONSE JUST DROPPED  '') = lower (strip TRIGGER_PHRASE)
   \<and> 0 < reply_attempts (fst (loop_body (lower (strip TRIGGER_PHRASE)) REPLY_TEXT
         (sample_delivery ''  NEW RESPONSE JUST DROPPED  '' (Some ''alice'')
            (Inr (Some ''bot'')) (Inr ()))))"
proof -
  let ?d = "sample_delivery ''  NEW RESPONSE JUST DROPPED  '' (Some ''alice'')
              (Inr (Some ''bot'')) (Inr ())"
  have h: "self_check ?d = Inr False"
    by (simp add: self_check_def sample_delivery_def sample_comment_def)
  have m: "lower (strip ''  NEW RESPONSE JUST DROPPED  '') = lower (strip TRIGGER_PHRASE)"
    by code_simp
  have b: "body (comment ?d) = ''  NEW RESPONSE JUST DROPPED  ''"
    by (simp add: sample_delivery_def sample_comment_def)
  from C1_reply_iff_normalized_equal[OF h, of TRIGGER_PHRASE REPLY_TEXT] m b h
  show ?thesis by simp
qed

text \<open>
  C2, as stated, fails. \<open>str.lower()\<close> does not undo every change of letter casing: the
  upper case of the sharp s (code point 0xDF) is \<open>SS\<close>, whose lower case is \<open>ss\<close>. With
  the sharp s as trigger phrase, the body that is the same sharp s matches and is replied
  to; its upper-cased form \<open>SS\<close> does not match and is not replied to.
\<close>

theorem C2_casing_counterexample:
  "upper [CHR 0xDF] = Some ''SS''
   \<and> trigger_matches [CHR 0xDF] [CHR 0xDF]
   \<and> \<not> trigger_matches [CHR 0xDF] ''SS''
   \<and> reply_attempts (fst (check_trigger (lower (strip [CHR 0xDF])) REPLY_TEXT
        (sample_delivery [CHR 0xDF] (Some ''alice'') (Inr (Some ''bot'')) (Inr ())))) = 1
   \<and> reply_attempts (fst (check_trigger (lower (strip [CHR 0xDF])) REPLY_TEXT
        (sample_delivery ''SS'' (Some ''alice'') (Inr (Some ''bot'')) (Inr ())))) = 0"
proof -
  let ?d1 = "sample_delivery [CHR 0xDF] (Some ''alice'') (Inr (Some ''bot'')) (Inr ())"
  let ?d2 = "sample_delivery ''SS'' (Some ''alice'') (Inr (Some ''bot'')) (Inr ())"
  have u: "upper [CHR 0xDF] = Some ''SS''" by code_simp
  have m1: "trigger_matches [CHR 0xDF] [CHR 0xDF]" by (simp add: trigger_matches_def)
  have ne: "lower (strip ''SS'') \<noteq> lower (strip [CHR 0xDF])" by code_simp
  then have m2: "\<not> trigger_matches [CHR 0xDF] ''SS''" by (simp add: trigger_matches_def)
  have b1: "lower (strip (body (comment ?d1))) = lower (strip [CHR 0xDF])"
    by (simp add: sample_delivery_def sample_comment_def)
  have r1: "reply_result ?d1 = Inr ()" by (simp add: sample_delivery_def)
  have b2: "lower (strip (body (comment ?d2))) \<noteq> lower (strip [CHR 0xDF])"
    using ne by (simp add: sample_delivery_def sample_comment_def)
  have a1: "reply_attempts (fst (check_trigger (lower (strip [CHR 0xDF])) REPLY_TEXT ?d1)) = 1"
    unfolding check_trigger_ok[OF b1 r1] by (simp add: reply_attempts_def)
  have a2: "reply_attempts (fst (check_trigger (lower (strip [CHR 0xDF])) REPLY_TEXT ?d2)) = 0"
    unfolding check_trigger_nomatch[OF b2] by (simp add: reply_attempts_def)
  from u m1 m2 a1 a2 show ?thesis by simp
qed

text \<open>
  C2, amended. For a body and a trigger phrase of the code points 0 to 255, the decision
  is invariant under adding or removing leading and trailing whitespace and under
  replacing letters by their single-character upper-case or lower-case partner, as the
  table of \<open>str.upper()\<close> gives it, on the body and on the trigger phrase: with any
  whitespace around a recased body and around a recased trigger phrase, the comparison,
  and with it the whole trigger check, comes out as for the original body and trigger
  phrase.
\<close>

theorem C2_match_invariant:
  assumes "\<forall>c\<in>set (l @ r @ l' @ r'). isspace c"
    and "recased B B'"
    and "recased T T'"
  shows "trigger_matches (l' @ T' @ r') (l @ B' @ r) = trigger_matches T B
       \<and> check_trigger (lower (strip (l' @ T' @ r'))) rt
            (d\<lparr>comment := (comment d)\<lparr>body := l @ B' @ r\<rparr>\<rparr>)
          = check_trigger (lower (strip T)) rt (d\<lparr>comment := (comment d)\<lparr>body := B\<rparr>\<rparr>)"
proof -
  have ws: "\<forall>c\<in>set l. isspace c" "\<forall>c\<in>set r. isspace c"
    "\<forall>c\<in>set l'. isspace c" "\<forall>c\<in>set r'. isspace c"
    using assms(1) by simp_all
  have b: "lower (strip (l @ B' @ r)) = lower (strip B)"
    using ws(1,2) assms(2) by (rule normalize_pad_recased)
  have t: "lower (strip (l' @ T' @ r')) = lower (strip T)"
    using ws(3,4) assms(3) by (rule normalize_pad_recased)
  have m: "trigger_matches (l' @ T' @ r') (l @ B' @ r) = trigger_matches T B"
    by (simp only: trigger_matches_def b t)
  have c: "check_trigger (lower (strip (l' @ T' @ r'))) rt
            (d\<lparr>comment := (comment d)\<lparr>body := l @ B' @ r\<rparr>\<rparr>)
          = check_trigger (lower (strip T)) rt (d\<lparr>comment := (comment d)\<lparr>body := B\<rparr>\<rparr>)"
    by (rule check_trigger_same_decision) (simp only: b t)
  from m c show ?thesis by simp
qed

theorem C2_match_invariant_witness:
  "list_all isspace (''  '' @ ''  '' @ [CHR 0x09] @ [CHR 0x0A])
   \<and> recased ''New response just dropped'' ''NEW RESPONSE JUST DROPPED''
   \<and> recased ''New response just dropped'' ''new Response Just Dropped''
   \<and> trigger_matches ''New response just dropped'' ''New response just dropped''
   \<and> trigger_matches ([CHR 0x09] @ ''new Response Just Dropped'' @ [CHR 0x0A])
        (''  '' @ ''NEW RESPONSE JUST DROPPED'' @ ''  '')"
proof -
  have ws: "\<forall>c\<in>set (''  '' @ ''  '' @ [CHR 0x09] @ [CHR 0x0A]). isspace c"
    by (simp add: isspace_def)
  have rb: "recased ''New response just dropped'' ''NEW RESPONSE JUST DROPPED''"
    by code_simp
  have rt: "recased ''New response just dropped'' ''new Response Just Dropped''"
    by code_simp
  have m: "trigger_matches ''New response just dropped'' ''New response just dropped''"
    by (simp add: trigger_matches_def)
  have ws': "list_all isspace (''  '' @ ''  '' @ [CHR 0x09] @ [CHR 0x0A])"
    using ws by (simp only: list_all_iff)
  from C2_match_invariant[OF ws rb rt] ws' rb rt m
  show ?thesis by simp
qed

text \<open>
  C3. In an iteration where \<open>reddit.user.me()\<close> returns the user whose name is the
  comment's author name, the iteration is only the call of \<open>me()\<close>: no reply is attempted,
  whatever the body, and the loop goes on with the next element. In an iteration where
  \<open>me()\<close> raises an \<open>Exception\<close>, the comment counts as not self-authored and the
  iteration goes on with the trigger check.
\<close>

theorem C3_self_skip_and_lookup_failure:
  "(author (comment d) = Some n \<and> me_result d = Inr (Some n) \<longrightarrow>
      loop_body tn rt d = ([CallMe], None)
      \<and> reply_attempts (fst (loop_body tn rt d)) = 0
      \<and> comment_loop tn rt (Yield d # rest)
          = (CallMe # fst (comment_loop tn rt rest), snd (comment_loop tn rt rest)))
   \<and> (me_result d = Inl (Exception m) \<longrightarrow>
      self_check d = Inr False
      \<and> loop_body tn rt d
          = (CallMe # fst (check_trigger tn rt d), snd (check_trigger tn rt d)))"
proof (intro conjI impI)
  assume a: "author (comment d) = Some n \<and> me_result d = Inr (Some n)"
  then have s: "self_check d = Inr True" by (simp add: self_check_def)
  then show b: "loop_body tn rt d = ([CallMe], None)" by (rule loop_body_self)
  then show "reply_attempts (fst (loop_body tn rt d)) = 0"
    by (simp add: reply_attempts_def)
  from b show "comment_loop tn rt (Yield d # rest)
          = (CallMe # fst (comment_loop tn rt rest), snd (comment_loop tn rt rest))"
    by (simp split: prod.splits)
next
  assume a: "me_result d = Inl (Exception m)"
  then show s: "self_check d = Inr False" by (simp add: self_check_def)
  then show "loop_body tn rt d
          = (CallMe # fst (check_trigger tn rt d), snd (check_trigger tn rt d))"
    by (rule loop_body_nonself)
qed

theorem C3_self_skip_and_lookup_failure_witness:
  "author (comment (sample_delivery ''New response just dropped'' (Some ''bot'')
      (Inr (Some ''bot'')) (Inr ()))) = Some ''bot''
   \<and> me_result (sample_delivery ''New response just dropped'' (Some ''bot'')
      (Inr (Some ''bot'')) (Inr ())) = Inr (Some ''bot'')
   \<and> lower (strip ''New response just dropped'') = lower (strip TRIGGER_PHRASE)
   \<and> loop_body (lower (strip TRIGGER_PHRASE)) REPLY_TEXT
        (sample_delivery ''New response just dropped'' (Some ''bot'')
          (Inr (Some ''bot'')) (Inr ())) = ([CallMe], None)
   \<and> me_result (sample_delivery ''New response just dropped'' (Some ''bot'')
      (Inl (Exception ''timeout'')) (Inr ())) = Inl (Exception ''timeout'')
   \<and> loop_body (lower (strip TRIGGER_PHRASE)) REPLY_TEXT
        (sample_delivery ''New response just dropped'' (Some ''bot'')
          (Inl (Exception ''timeout'')) (Inr ()))
      = ([CallMe, Log INFO ''Replying to comment id=%s in r/%s'' [''c1'', ''test''],
          Reply ''c1'' ''Actual Zombie'', Sleep 2], None)"
proof -
  let ?d1 = "sample_delivery ''New response just dropped'' (Some ''bot'')
      (Inr (Some ''bot'')) (Inr ())"
  let ?d2 = "sample_delivery ''New response just dropped'' (Some ''bot'')
      (Inl (Exception ''timeout'')) (Inr ())"
  have a1: "author (comment ?d1) = Some ''bot'' \<and> me_result ?d1 = Inr (Some ''bot'')"
    by (simp add: sample_delivery_def sample_comment_def)
  have a2: "me_result ?d2 = Inl (Exception ''timeout'')"
    by (simp add: sample_delivery_def)
  have m: "lower (strip ''New response just dropped'') = lower (strip TRIGGER_PHRASE)"
    by code_simp
  have b2: "lower (strip (body (comment ?d2))) = lower (strip TRIGGER_PHRASE)"
    using m by (simp add: sample_delivery_def sample_comment_def)
  have r2: "reply_result ?d2 = Inr ()" by (simp add: sample_delivery_def)
  have c2: "check_trigger (lower (strip TRIGGER_PHRASE)) REPLY_TEXT ?d2
      = ([Log INFO ''Replying to comment id=%s in r/%s'' [''c1'', ''test''],
          Reply ''c1'' ''Actual Zombie'', Sleep 2], None)"
    unfolding check_trigger_ok[OF b2 r2]
    by (simp add: sample_delivery_def sample_comment_def REPLY_TEXT_def)
  from C3_self_skip_and_lookup_failure
         [of ?d1 "''bot''" "lower (strip TRIGGER_PHRASE)" REPLY_TEXT "[]" "''timeout''"]
       C3_self_skip_and_lookup_failure
         [of ?d2 "''bot''" "lower (strip TRIGGER_PHRASE)" REPLY_TEXT "[]" "''timeout''"]
       a1 a2 m c2
  show ?thesis by simp
qed

text \<open>
  C4. For a matching comment, the time slept when the reply raises an \<open>Exception\<close> is 5,
  the time slept when the reply returns is 2, and the first is strictly greater.
\<close>

theorem C4_failure_delay_longer:
  assumes "lower (strip (body (comment d))) = tn"
  shows "total_sleep (fst (check_trigger tn rt (d\<lparr>reply_result := Inl (Exception m)\<rparr>))) = 5
       \<and> total_sleep (fst (check_trigger tn rt (d\<lparr>reply_result := Inr ()\<rparr>))) = 2
       \<and> total_sleep (fst (check_trigger tn rt (d\<lparr>reply_result := Inr ()\<rparr>)))
           < total_sleep (fst (check_trigger tn rt (d\<lparr>reply_result := Inl (Exception m)\<rparr>)))"
proof -
  have f: "total_sleep (fst (check_trigger tn rt (d\<lparr>reply_result := Inl (Exception m)\<rparr>))) = 5"
    using assms by (simp add: check_trigger_def Let_def total_sleep_def)
  have s: "total_sleep (fst (check_trigger tn rt (d\<lparr>reply_result := Inr ()\<rparr>))) = 2"
    using assms by (simp add: check_trigger_def Let_def total_sleep_def)
  from f s show ?thesis by simp
qed

theorem C4_failure_delay_longer_witness:
  "lower (strip (body (comment (sample_delivery ''new response just dropped'' None
      (Inr None) (Inr ()))))) = lower (strip TRIGGER_PHRASE)
   \<and> total_sleep (fst (check_trigger (lower (strip TRIGGER_PHRASE)) REPLY_TEXT
       ((sample_delivery ''new response just dropped'' None (Inr None) (Inr ()))
          \<lparr>reply_result := Inl (Exception ''403'')\<rparr>))) = 5
   \<and> total_sleep (fst (check_trigger (lower (strip TRIGGER_PHRASE)) REPLY_TEXT
       ((sample_delivery ''new response just dropped'' None (Inr None) (Inr ()))
          \<lparr>reply_result := Inr ()\<rparr>))) = 2"
proof -
  let ?d = "sample_delivery ''new response just dropped'' None (Inr None) (Inr ())"
  have "lower (strip ''new response just dropped'') = lower (strip TRIGGER_PHRASE)"
    by code_simp
  then have h: "lower (strip (body (comment ?d))) = lower (strip TRIGGER_PHRASE)"
    by (simp add: sample_delivery_def sample_comment_def)
  from C4_failure_delay_longer[OF h, of REPLY_TEXT "''403''"] h
  show ?thesis by simp
qed

text \<open>
  C5. When the reply to a matching comment raises an \<open>Exception\<close> (a permission error,
  a deleted comment, a rate limit, a network failure), the iteration logs at level ERROR
  the comment id and the text of the exception, sleeps 5 and ends without an exception;
  the loop goes on with the next element of the stream.
\<close>

theorem C5_reply_error_recovered:
  assumes "self_check d = Inr False"
    and "lower (strip (body (comment d))) = tn"
    and "reply_result d = Inl (Exception m)"
  shows "loop_body tn rt d =
           ([CallMe,
             Log INFO ''Replying to comment id=%s in r/%s''
               [comment_id (comment d), subreddit (comment d)],
             Reply (comment_id (comment d)) rt,
             Log ERROR ''Failed to reply to comment %s: %s'' [comment_id (comment d), m],
             Sleep 5], None)
       \<and> comment_loop tn rt (Yield d # rest) =
           (fst (loop_body tn rt d) @ fst (comment_loop tn rt rest),
            snd (comment_loop tn rt rest))"
proof -
  have b: "loop_body tn rt d =
           ([CallMe,
             Log INFO ''Replying to comment id=%s in r/%s''
               [comment_id (comment d), subreddit (comment d)],
             Reply (comment_id (comment d)) rt,
             Log ERROR ''Failed to reply to comment %s: %s'' [comment_id (comment d), m],
             Sleep 5], None)"
    unfolding loop_body_nonself[OF assms(1)] check_trigger_exception[OF assms(2,3)]
    by simp
  have "comment_loop tn rt (Yield d # rest) =
           (fst (loop_body tn rt d) @ fst (comment_loop tn rt rest),
            snd (comment_loop tn rt rest))"
    by (simp add: b split: prod.splits)
  with b show ?thesis by simp
qed

theorem C5_reply_error_recovered_witness:
  "self_check (sample_delivery ''New response just dropped'' (Some ''alice'')
      (Inr (Some ''bot'')) (Inl (Exception ''403 Forbidden''))) = Inr False
   \<and> lower (strip ''New response just dropped'') = lower (strip TRIGGER_PHRASE)
   \<and> reply_result (sample_delivery ''New response just dropped'' (Some ''alice'')
      (Inr (Some ''bot'')) (Inl (Exception ''403 Forbidden''))) = Inl (Exception ''403 Forbidden'')
   \<and> comment_loop (lower (strip TRIGGER_PHRASE)) REPLY_TEXT
        [Yield (sample_delivery ''New response just dropped'' (Some ''alice'')
           (Inr (Some ''bot'')) (Inl (Exception ''403 Forbidden''))),
         Yield (sample_delivery ''New response just dropped'' (Some ''alice'')
           (Inr (Some ''bot'')) (Inr ()))]
      = ([CallMe, Log INFO ''Replying to comment id=%s in r/%s'' [''c1'', ''test''],
          Reply ''c1'' ''Actual Zombie'',
          Log ERROR ''Failed to reply to comment %s: %s'' [''c1'', ''403 Forbidden''],
          Sleep 5,
          CallMe, Log INFO ''Replying to comment id=%s in r/%s'' [''c1'', ''test''],
          Reply ''c1'' ''Actual Zombie'', Sleep 2], None)"
proof -
  let ?tn = "lower (strip TRIGGER_PHRASE)"
  let ?d = "sample_delivery ''New response just dropped'' (Some ''alice'')
      (Inr (Some ''bot'')) (Inl (Exception ''403 Forbidden''))"
  let ?d2 = "sample_delivery ''New response just dropped'' (Some ''alice'')
      (Inr (Some ''bot'')) (Inr ())"
  have h1: "self_check ?d = Inr False"
    by (simp add: self_check_def sample_delivery_def sample_comment_def)
  have m: "lower (strip ''New response just dropped'') = ?tn"
    by code_simp
  then have h2: "lower (strip (body (comment ?d))) = ?tn"
    by (simp add: sample_delivery_def sample_comment_def)
  have h3: "reply_result ?d = Inl (Exception ''403 Forbidden'')"
    by (simp add: sample_delivery_def)
  have s2: "self_check ?d2 = Inr False"
    by (simp add: self_check_def sample_delivery_def sample_comment_def)
  have b2: "lower (strip (body (comment ?d2))) = ?tn"
    using m by (simp add: sample_delivery_def sample_comment_def)
  have r2: "reply_result ?d2 = Inr ()" by (simp add: sample_delivery_def)
  have l2: "comment_loop ?tn REPLY_TEXT [Yield ?d2]
      = ([CallMe, Log INFO ''Replying to comment id=%s in r/%s'' [''c1'', ''test''],
          Reply ''c1'' ''Actual Zombie'', Sleep 2], None)"
    unfolding comment_loop_single loop_body_nonself[OF s2] check_trigger_ok[OF b2 r2]
    by (simp add: sample_delivery_def sample_comment_def REPLY_TEXT_def)
  have ids: "comment_id (comment ?d) = ''c1''" "subreddit (comment ?d) = ''test''"
    by (simp_all add: sample_delivery_def sample_comment_def)
  from C5_reply_error_recovered[OF h1 h2 h3, of REPLY_TEXT "[Yield ?d2]"]
  have "comment_loop ?tn REPLY_TEXT [Yield ?d, Yield ?d2]
      = ([CallMe, Log INFO ''Replying to comment id=%s in r/%s'' [''c1'', ''test''],
          Reply ''c1'' ''Actual Zombie'',
          Log ERROR ''Failed to reply to comment %s: %s'' [''c1'', ''403 Forbidden''],
          Sleep 5,
          CallMe, Log INFO ''Replying to comment id=%s in r/%s'' [''c1'', ''test''],
          Reply ''c1'' ''Actual Zombie'', Sleep 2], None)"
    by (simp only: l2 ids fst_conv snd_conv) (simp add: REPLY_TEXT_def)
  with h1 m h3 show ?thesis by simp
qed

text \<open>
  C6. \<open>monitor_comments\<close> opens exactly one stream. For channel names \<open>x\<close>, \<open>y1\<close>, ...,
  \<open>yn\<close> its target is \<open>x\<close> followed by \<open>+y1\<close>, ..., \<open>+yn\<close>: every name, in the order given,
  with one \<open>+\<close> between neighbours and none before the first or after the last. \<open>test\<close>
  and \<open>learnpython\<close> give \<open>test+learnpython\<close>, three names \<open>a\<close>, \<open>b\<close>, \<open>c\<close> give \<open>a+b+c\<close>, and
  the list \<open>SUBREDDITS\<close> of \<open>main\<close>, which holds only \<open>all\<close>, gives the target \<open>all\<close>.
\<close>

theorem C6_subscription_target:
  "streams_opened (fst (monitor_comments r (x # xs) t rt))
      = [(x @ concat (map (\<lambda>y. ''+'' @ y) xs), True)]
   \<and> join ''+'' (x # xs) = x @ concat (map (\<lambda>y. ''+'' @ y) xs)
   \<and> streams_opened (fst (monitor_comments r subs t rt)) = [(join ''+'' subs, True)]
   \<and> join ''+'' [''test'', ''learnpython''] = ''test+learnpython''
   \<and> streams_opened (fst (monitor_comments r [''a'', ''b'', ''c''] t rt)) = [(''a+b+c'', True)]
   \<and> join ''+'' SUBREDDITS = ''all''
   \<and> streams_opened (fst (monitor_comments r SUBREDDITS t rt)) = [(''all'', True)]"
proof -
  have a: "streams_opened (fst (monitor_comments r subs t rt)) = [(join ''+'' subs, True)]"
    for subs
    by (simp add: monitor_comments_unfold streams_opened_Cons streams_opened_comment_loop)
  have j: "join ''+'' (x # xs) = x @ concat (map (\<lambda>y. ''+'' @ y) xs)"
    by (rule join_closed_form)
  have g: "streams_opened (fst (monitor_comments r (x # xs) t rt))
      = [(x @ concat (map (\<lambda>y. ''+'' @ y) xs), True)]"
    by (simp only: a j)
  have b: "join ''+'' [''test'', ''learnpython''] = ''test+learnpython''" by simp
  have c: "join ''+'' SUBREDDITS = ''all''" by (simp add: SUBREDDITS_def)
  have d: "streams_opened (fst (monitor_comments r [''a'', ''b'', ''c''] t rt))
      = [(''a+b+c'', True)]"
    by (simp add: a)
  have e: "streams_opened (fst (monitor_comments r SUBREDDITS t rt)) = [(''all'', True)]"
    by (simp only: a c)
  from g j a[of subs] b d c e show ?thesis by (intro conjI)
qed

text \<open>
  C7. The one stream that \<open>monitor_comments\<close> opens is opened with \<open>skip_existing\<close>
  true. A stream opened in that mode yields the comments created after subscription only,
  so the loop runs over these alone, and the run does not depend on the comments that
  existed before.
\<close>

theorem C7_skip_existing:
  "map snd (streams_opened (fst (monitor_comments r subs t rt))) = [True]
   \<and> stream_comments r (join ''+'' subs) True = incoming r (join ''+'' subs)
   \<and> monitor_comments r subs t rt =
       (Log INFO
          (''Starting comment stream for r/%s; trigger phrase='' @ [CHR 0x27] @ ''%s''
             @ [CHR 0x27])
          [join ''+'' subs, t]
        # OpenStream (join ''+'' subs) True
        # fst (comment_loop (lower (strip t)) rt (incoming r (join ''+'' subs))),
        snd (comment_loop (lower (strip t)) rt (incoming r (join ''+'' subs))))
   \<and> monitor_comments (r\<lparr>existing := h\<rparr>) subs t rt = monitor_comments r subs t rt"
proof -
  have a: "map snd (streams_opened (fst (monitor_comments r subs t rt))) = [True]"
    by (simp add: monitor_comments_unfold streams_opened_Cons streams_opened_comment_loop)
  have b: "stream_comments r p True = incoming r p" for r p
    by (simp add: stream_comments_def)
  have c: "monitor_comments (r\<lparr>existing := h\<rparr>) subs t rt = monitor_comments r subs t rt"
    by (simp add: monitor_comments_unfold b)
  from a b[of r "join ''+'' subs"] c monitor_comments_unfold[of r subs t rt]
  show ?thesis by (simp only: b)
qed

text \<open>
  C8, as stated, fails: the action log is written before the reply is attempted, so it
  is also there when the reply raises. A matching comment whose reply raises a permission
  error has the action log, the reply call, the error log and the sleep of 5.
\<close>

theorem C8_action_log_counterexample:
  "reply_result (sample_delivery ''New response just dropped'' (Some ''alice'')
      (Inr (Some ''bot'')) (Inl (Exception ''403 Forbidden''))) = Inl (Exception ''403 Forbidden'')
   \<and> reply_result (sample_delivery ''New response just dropped'' (Some ''alice'')
      (Inr (Some ''bot'')) (Inl (Exception ''403 Forbidden''))) \<noteq> Inr ()
   \<and> Log INFO ''Replying to comment id=%s in r/%s'' [''c1'', ''test'']
       \<in> set (fst (loop_body (lower (strip TRIGGER_PHRASE)) REPLY_TEXT
            (sample_delivery ''New response just dropped'' (Some ''alice'')
               (Inr (Some ''bot'')) (Inl (Exception ''403 Forbidden'')))))
   \<and> loop_body (lower (strip TRIGGER_PHRASE)) REPLY_TEXT
        (sample_delivery ''New response just dropped'' (Some ''alice'')
           (Inr (Some ''bot'')) (Inl (Exception ''403 Forbidden'')))
      = ([CallMe, Log INFO ''Replying to comment id=%s in r/%s'' [''c1'', ''test''],
          Reply ''c1'' ''Actual Zombie'',
          Log ERROR ''Failed to reply to comment %s: %s'' [''c1'', ''403 Forbidden''],
          Sleep 5], None)"
proof -
  let ?tn = "lower (strip TRIGGER_PHRASE)"
  let ?d = "sample_delivery ''New response just dropped'' (Some ''alice'')
      (Inr (Some ''bot'')) (Inl (Exception ''403 Forbidden''))"
  have h1: "self_check ?d = Inr False"
    by (simp add: self_check_def sample_delivery_def sample_comment_def)
  have "lower (strip ''New response just dropped'') = ?tn"
    by code_simp
  then have h2: "lower (strip (body (comment ?d))) = ?tn"
    by (simp add: sample_delivery_def sample_comment_def)
  have h3: "reply_result ?d = Inl (Exception ''403 Forbidden'')"
    by (simp add: sample_delivery_def)
  have b: "loop_body ?tn REPLY_TEXT ?d
      = ([CallMe, Log INFO ''Replying to comment id=%s in r/%s'' [''c1'', ''test''],
          Reply ''c1'' ''Actual Zombie'',
          Log ERROR ''Failed to reply to comment %s: %s'' [''c1'', ''403 Forbidden''],
          Sleep 5], None)"
    unfolding loop_body_nonself[OF h1] check_trigger_exception[OF h2 h3]
    by (simp add: sample_delivery_def sample_comment_def REPLY_TEXT_def)
  have c: "Log INFO ''Replying to comment id=%s in r/%s'' [''c1'', ''test'']
       \<in> set (fst (loop_body ?tn REPLY_TEXT ?d))"
    by (simp only: b fst_conv) simp
  from h3 b c show ?thesis by simp
qed

text \<open>
  C8, amended. For every matching comment that passes the self-author check, the
  iteration starts with the call of \<open>me()\<close>, the action log with the comment id and the
  channel, and the reply call: the action log is written before the attempt, whether it
  succeeds or not. The sleep of 2 happens exactly when the reply returns; the error log
  with the comment id and the cause, and the sleep of 5, happen exactly when the reply
  raises an \<open>Exception\<close>.
\<close>

theorem C8_logs_and_outcome:
  assumes "self_check d = Inr False"
    and "lower (strip (body (comment d))) = tn"
  shows "take 3 (fst (loop_body tn rt d))
           = [CallMe,
              Log INFO ''Replying to comment id=%s in r/%s''
                [comment_id (comment d), subreddit (comment d)],
              Reply (comment_id (comment d)) rt]
       \<and> (Sleep 2 \<in> set (fst (loop_body tn rt d))) = (reply_result d = Inr ())
       \<and> (Log ERROR ''Failed to reply to comment %s: %s'' [comment_id (comment d), m]
             \<in> set (fst (loop_body tn rt d))) = (reply_result d = Inl (Exception m))
       \<and> (Sleep 5 \<in> set (fst (loop_body tn rt d)))
             = (\<exists>m'. reply_result d = Inl (Exception m'))"
proof (cases d rule: reply_result_cases)
  case ok
  show ?thesis
    unfolding loop_body_nonself[OF assms(1)] check_trigger_ok[OF assms(2) ok]
    using ok by simp
next
  case (exc m')
  show ?thesis
    unfolding loop_body_nonself[OF assms(1)] check_trigger_exception[OF assms(2) exc]
    using exc by auto
next
  case (base m')
  show ?thesis
    unfolding loop_body_nonself[OF assms(1)] check_trigger_base_exception[OF assms(2) base]
    using base by simp
qed

theorem C8_logs_and_outcome_witness:
  "self_check (sample_delivery ''New response just dropped'' (Some ''alice'')
      (Inr (Some ''bot'')) (Inl (Exception ''403 Forbidden''))) = Inr False
   \<and> lower (strip ''New response just dropped'') = lower (strip TRIGGER_PHRASE)
   \<and> take 3 (fst (loop_body (lower (strip TRIGGER_PHRASE)) REPLY_TEXT
        (sample_delivery ''New response just dropped'' (Some ''alice'')
           (Inr (Some ''bot'')) (Inl (Exception ''403 Forbidden'')))))
      = [CallMe, Log INFO ''Replying to comment id=%s in r/%s'' [''c1'', ''test''],
          Reply ''c1'' ''Actual Zombie'']
   \<and> Log ERROR ''Failed to reply to comment %s: %s'' [''c1'', ''403 Forbidden'']
        \<in> set (fst (loop_body (lower (strip TRIGGER_PHRASE)) REPLY_TEXT
        (sample_delivery ''New response just dropped'' (Some ''alice'')
           (Inr (Some ''bot'')) (Inl (Exception ''403 Forbidden'')))))
   \<and> Sleep 2 \<notin> set (fst (loop_body (lower (strip TRIGGER_PHRASE)) REPLY_TEXT
        (sample_delivery ''New response just dropped'' (Some ''alice'')
           (Inr (Some ''bot'')) (Inl (Exception ''403 Forbidden'')))))"
proof -
  let ?tn = "lower (strip TRIGGER_PHRASE)"
  let ?d = "sample_delivery ''New response just dropped'' (Some ''alice'')
      (Inr (Some ''bot'')) (Inl (Exception ''403 Forbidden''))"
  have h1: "self_check ?d = Inr False"
    by (simp add: self_check_def sample_delivery_def sample_comment_def)
  have m: "lower (strip ''New response just dropped'') = ?tn"
    by code_simp
  then have h2: "lower (strip (body (comment ?d))) = ?tn"
    by (simp add: sample_delivery_def sample_comment_def)
  have ids: "comment_id (comment ?d) = ''c1''" "subreddit (comment ?d) = ''test''"
    "reply_result ?d = Inl (Exception ''403 Forbidden'')"
    by (simp_all add: sample_delivery_def sample_comment_def)
  from C8_logs_and_outcome[OF h1 h2, of REPLY_TEXT "''403 Forbidden''"] h1 m
  show ?thesis by (simp add: ids REPLY_TEXT_def)
qed

text \<open>
  C9. The loop keeps no record of the comments it has processed: after any run of the
  loop that has not left it, the iteration for a delivered comment is the loop body on
  that comment alone, so a comment delivered a second time is processed as the first time
  (a matching comment is replied to again).
\<close>

theorem C9_redelivery_same_outcome:
  assumes "comment_loop tn rt pre = (evs, None)"
  shows "comment_loop tn rt (pre @ [Yield d])
           = (evs @ fst (loop_body tn rt d), snd (loop_body tn rt d))"
  using comment_loop_append[OF assms, of "[Yield d]"]
  by (simp only: comment_loop_single)

theorem C9_redelivery_same_outcome_witness:
  "comment_loop (lower (strip TRIGGER_PHRASE)) REPLY_TEXT
     [Yield (sample_delivery ''New response just dropped'' (Some ''alice'')
        (Inr (Some ''bot'')) (Inr ()))]
     = ([CallMe, Log INFO ''Replying to comment id=%s in r/%s'' [''c1'', ''test''],
          Reply ''c1'' ''Actual Zombie'', Sleep 2], None)
   \<and> comment_loop (lower (strip TRIGGER_PHRASE)) REPLY_TEXT
     ([Yield (sample_delivery ''New response just dropped'' (Some ''alice'')
        (Inr (Some ''bot'')) (Inr ()))]
      @ [Yield (sample_delivery ''New response just dropped'' (Some ''alice'')
        (Inr (Some ''bot'')) (Inr ()))])
     = ([CallMe, Log INFO ''Replying to comment id=%s in r/%s'' [''c1'', ''test''],
          Reply ''c1'' ''Actual Zombie'', Sleep 2,
         CallMe, Log INFO ''Replying to comment id=%s in r/%s'' [''c1'', ''test''],
          Reply ''c1'' ''Actual Zombie'', Sleep 2], None)"
proof -
  let ?tn = "lower (strip TRIGGER_PHRASE)"
  let ?d2 = "sample_delivery ''New response just dropped'' (Some ''alice'')
      (Inr (Some ''bot'')) (Inr ())"
  have m: "lower (strip ''New response just dropped'') = ?tn"
    by code_simp
  have s2: "self_check ?d2 = Inr False"
    by (simp add: self_check_def sample_delivery_def sample_comment_def)
  have b2: "lower (strip (body (comment ?d2))) = ?tn"
    using m by (simp add: sample_delivery_def sample_comment_def)
  have r2: "reply_result ?d2 = Inr ()" by (simp add: sample_delivery_def)
  have lb: "loop_body ?tn REPLY_TEXT ?d2
      = ([CallMe, Log INFO ''Replying to comment id=%s in r/%s'' [''c1'', ''test''],
          Reply ''c1'' ''Actual Zombie'', Sleep 2], None)"
    unfolding loop_body_nonself[OF s2] check_trigger_ok[OF b2 r2]
    by (simp add: sample_delivery_def sample_comment_def REPLY_TEXT_def)
  have l2: "comment_loop ?tn REPLY_TEXT [Yield ?d2]
      = ([CallMe, Log INFO ''Replying to comment id=%s in r/%s'' [''c1'', ''test''],
          Reply ''c1'' ''Actual Zombie'', Sleep 2], None)"
    by (simp only: comment_loop_single lb)
  from C9_redelivery_same_outcome[OF l2, of ?d2] l2 lb
  show ?thesis by (simp only: fst_conv snd_conv append.simps)
qed

text \<open>
  C10. A comment whose author is \<open>None\<close> is not taken for self-authored and the missing
  author raises nothing: whenever the call of \<open>me()\<close> does not leave the function (it
  returns a user, returns \<open>None\<close> or raises an \<open>Exception\<close>), the iteration goes on with
  the trigger check.
\<close>

theorem C10_absent_author:
  assumes "author (comment d) = None"
    and "\<forall>m. me_result d \<noteq> Inl (BaseException m)"
  shows "self_check d = Inr False
       \<and> loop_body tn rt d
           = (CallMe # fst (check_trigger tn rt d), snd (check_trigger tn rt d))"
proof -
  have s: "self_check d = Inr False"
    using assms by (simp add: self_check_def split: sum.splits py_exc.splits)
  from s loop_body_nonself[OF s] show ?thesis by simp
qed

theorem C10_absent_author_witness:
  "author (comment (sample_delivery ''New response just dropped'' None
      (Inr None) (Inr ()))) = None
   \<and> self_check (sample_delivery ''New response just dropped'' None
      (Inr None) (Inr ())) = Inr False
   \<and> loop_body (lower (strip TRIGGER_PHRASE)) REPLY_TEXT
        (sample_delivery ''New response just dropped'' None (Inr None) (Inr ()))
      = ([CallMe, Log INFO ''Replying to comment id=%s in r/%s'' [''c1'', ''test''],
          Reply ''c1'' ''Actual Zombie'', Sleep 2], None)"
proof -
  let ?tn = "lower (strip TRIGGER_PHRASE)"
  let ?d = "sample_delivery ''New response just dropped'' None (Inr None) (Inr ())"
  have a: "author (comment ?d) = None"
    by (simp add: sample_delivery_def sample_comment_def)
  have me: "\<forall>m. me_result ?d \<noteq> Inl (BaseException m)"
    by (simp add: sample_delivery_def)
  have m: "lower (strip ''New response just dropped'') = ?tn"
    by code_simp
  have b: "lower (strip (body (comment ?d))) = ?tn"
    using m by (simp add: sample_delivery_def sample_comment_def)
  have r: "reply_result ?d = Inr ()" by (simp add: sample_delivery_def)
  have c: "check_trigger ?tn REPLY_TEXT ?d
      = ([Log INFO ''Replying to comment id=%s in r/%s'' [''c1'', ''test''],
          Reply ''c1'' ''Actual Zombie'', Sleep 2], None)"
    unfolding check_trigger_ok[OF b r]
    by (simp add: sample_delivery_def sample_comment_def REPLY_TEXT_def)
  from C10_absent_author[OF a me, of ?tn REPLY_TEXT] a c
  show ?thesis by simp
qed

end
